theory Spec2Isabelle
  imports Main "HOL-Library.Product_Lexorder"
begin

section \<open>Python values used by the three modules\<close>

text \<open>
  A Python \<open>str\<close> is a sequence of Unicode code points, and \<open>len\<close>, slicing and
  \<open>rfind\<close> count code points; a string is therefore a list of code points (integer
  numbers). \<open>py\<close> turns an ASCII literal into such a list.
\<close>

type_synonym pystr = "int list"

definition py :: "string \<Rightarrow> pystr" where
  "py s = map of_char s"

text \<open>The exceptions that the modelled functions can raise or catch.\<close>

datatype error = OverflowError | OSError

text \<open>
  \<open>str.isspace\<close> for one code point, as CPython decides it: the characters
  \<open>\t \n \v \f \r\<close>, the separators \<open>0x1C..0x1F\<close>, the space, \<open>0x85\<close>, \<open>0xA0\<close>,
  \<open>0x1680\<close>, \<open>0x2000..0x200A\<close>, \<open>0x2028\<close>, \<open>0x2029\<close>, \<open>0x202F\<close>, \<open>0x205F\<close>
  and \<open>0x3000\<close>.
\<close>

definition is_space :: "int \<Rightarrow> bool" where
  "is_space c \<longleftrightarrow>
     c \<in> set [9, 10, 11, 12, 13, 28, 29, 30, 31, 32, 133, 160, 5760,
              8232, 8233, 8239, 8287, 12288] \<or> (8192 \<le> c \<and> c \<le> 8202)"

text \<open>\<open>s.strip()\<close>: leading and trailing whitespace removed.\<close>

definition strip :: "pystr \<Rightarrow> pystr" where
  "strip s = rev (dropWhile is_space (rev (dropWhile is_space s)))"

text \<open>
  \<open>xs[i:j]\<close>: a negative bound counts from the end, every bound is clamped into
  \<open>0..len(xs)\<close>, and the slice is empty when the bounds cross.
\<close>

definition py_slice :: "'a list \<Rightarrow> int \<Rightarrow> int \<Rightarrow> 'a list" where
  "py_slice xs i j =
     (let n = int (length xs);
          lo = (if i < 0 then max (i + n) 0 else min i n);
          hi = (if j < 0 then max (j + n) 0 else min j n)
      in take (nat (hi - lo)) (drop (nat lo) xs))"

text \<open>\<open>s.rfind(c)\<close> for a one-character needle: the greatest index holding \<open>c\<close>, or \<open>-1\<close>.\<close>

fun rfind :: "'a list \<Rightarrow> 'a \<Rightarrow> int" where
  "rfind [] c = - 1"
| "rfind (x # xs) c =
     (let r = rfind xs c in if 0 \<le> r then r + 1 else if x = c then 0 else - 1)"

subsection \<open>The double-precision product \<open>chunk_size * 0.7\<close>\<close>

text \<open>
  \<open>chunk_size * 0.7\<close> converts the integer to a double (round to nearest, ties to even,
  \<open>OverflowError\<close> when the result does not fit) and multiplies by the double nearest to
  \<open>0.7\<close>, which is \<open>6305039478318694 / 2^53\<close>; the product is rounded again.
  \<open>round_to_53\<close> rounds a non-negative integer to 53 significant bits. Rounding to a
  number of significant bits commutes with scaling by a power of two, so the product is
  \<open>round_to_53 (a * 6305039478318694) / 2^53\<close>; \<open>float_mul_0_7\<close> returns its numerator
  over \<open>2^53\<close>. Python compares an \<open>int\<close> with a \<open>float\<close> exactly.
\<close>

function bit_length :: "int \<Rightarrow> nat" where
  "bit_length n = (if n \<le> 0 then 0 else Suc (bit_length (n div 2)))"
  by pat_completeness auto
termination
  by (relation "measure nat") auto

declare bit_length.simps [simp del]

definition round_to_53 :: "int \<Rightarrow> int" where
  "round_to_53 n =
     (if bit_length n \<le> 53 then n
      else let s = bit_length n - 53; q = n div 2 ^ s; r = n mod 2 ^ s;
               q' = (if 2 ^ s < 2 * r \<or> (2 * r = 2 ^ s \<and> odd q) then q + 1 else q)
           in q' * 2 ^ s)"

definition float_mul_0_7 :: "int \<Rightarrow> error + int" where
  "float_mul_0_7 chunk_size =
     (let a = round_to_53 \<bar>chunk_size\<bar>
      in if 2 ^ 1024 \<le> a then Inl OverflowError
         else Inr (sgn chunk_size * round_to_53 (a * 6305039478318694)))"

definition int_gt_float :: "int \<Rightarrow> int \<Rightarrow> bool" where
  "int_gt_float i t \<longleftrightarrow> t < i * 2 ^ 53"

section \<open>Ingestion agent: \<open>chunk_text\<close>\<close>

text \<open>
  One pass of the \<open>while\<close> body up to the \<open>append\<close>: the window \<open>text[start:end]\<close>,
  shortened at the last boundary character when the window stops before the end of
  the text and the boundary is past \<open>chunk_size * 0.7\<close>. The result is the final
  \<open>end\<close> and the chunk before \<open>strip\<close>. The code points 46, 10 and 32 are the full
  stop, the newline and the space.
\<close>

definition window :: "pystr \<Rightarrow> int \<Rightarrow> int \<Rightarrow> error + (int \<times> pystr)" where
  "window text chunk_size start =
     (let end = start + chunk_size;
          chunk = py_slice text start end
      in if end < int (length text) then
           (let last_period = rfind chunk 46;
                last_newline = rfind chunk 10;
                last_space = rfind chunk 32;
                break_point = max (max last_period last_newline) last_space
            in case float_mul_0_7 chunk_size of
                 Inl e \<Rightarrow> Inl e
               | Inr t \<Rightarrow>
                   if int_gt_float break_point t
                   then Inr (start + break_point + 1, py_slice chunk 0 (break_point + 1))
                   else Inr (end, chunk))
         else Inr (end, chunk))"

text \<open>
  The \<open>while start < text_length\<close> loop. It need not terminate, so the result is an
  option: \<open>None\<close> is a loop that never leaves, \<open>Some (Inl e)\<close> an exception that
  escapes, \<open>Some (Inr chunks)\<close> the returned list.
\<close>

partial_function (option) chunk_loop ::
  "pystr \<Rightarrow> int \<Rightarrow> int \<Rightarrow> int \<Rightarrow> pystr list \<Rightarrow> (error + pystr list) option" where
  "chunk_loop text chunk_size overlap start chunks =
     (if start < int (length text) then
        (case window text chunk_size start of
           Inl e \<Rightarrow> Some (Inl e)
         | Inr (end, chunk) \<Rightarrow>
             chunk_loop text chunk_size overlap (end - overlap) (chunks @ [strip chunk]))
      else Some (Inr chunks))"

declare chunk_loop.simps [code]

definition chunk_text :: "pystr \<Rightarrow> int \<Rightarrow> int \<Rightarrow> (error + pystr list) option" where
  "chunk_text text chunk_size overlap =
     (if text = [] then Some (Inr [])
      else chunk_loop text chunk_size overlap 0 [])"

subsection \<open>The break rule as the specification words it\<close>

text \<open>
  The specification describes the choice of the break point by kind: the last sentence
  terminator of the window if there is one, otherwise the last newline, otherwise the
  last whitespace; the break is accepted when it lies at or past 70 percent of
  \<open>chunk_size\<close>. \<open>spec_window\<close> is \<open>window\<close> with that rule in place of the source's,
  kept apart to be compared with it.
\<close>

definition spec_break_point :: "pystr \<Rightarrow> int" where
  "spec_break_point chunk =
     (if 0 \<le> rfind chunk 46 then rfind chunk 46
      else if 0 \<le> rfind chunk 10 then rfind chunk 10
      else rfind chunk 32)"

definition spec_accepts :: "int \<Rightarrow> int \<Rightarrow> bool" where
  "spec_accepts chunk_size break_point \<longleftrightarrow>
     0 \<le> break_point \<and> 7 * chunk_size \<le> 10 * break_point"

definition spec_window :: "pystr \<Rightarrow> int \<Rightarrow> int \<Rightarrow> int \<times> pystr" where
  "spec_window text chunk_size start =
     (let end = start + chunk_size;
          chunk = py_slice text start end
      in if end < int (length text) then
           (let break_point = spec_break_point chunk
            in if spec_accepts chunk_size break_point
               then (start + break_point + 1, py_slice chunk 0 (break_point + 1))
               else (end, chunk))
         else (end, chunk))"

text \<open>
  The positions of a window, in increasing order, that hold a full stop, a newline or a
  space and lie past the threshold \<open>t / 2^53\<close>.
\<close>

definition late_boundaries :: "pystr \<Rightarrow> int \<Rightarrow> nat list" where
  "late_boundaries chunk t =
     [i \<leftarrow> [0..<length chunk]. chunk ! i \<in> {46, 10, 32} \<and> int_gt_float (int i) t]"

text \<open>A text on which the loop makes no progress with \<open>chunk_size = 10\<close>, \<open>overlap = 9\<close>.\<close>

definition stall_text :: pystr where
  "stall_text = py ''aaaaaaaa.aaaaaaaaaaa''"

section \<open>Message bus: \<open>mcp\<close>\<close>

text \<open>
  A message is a Python \<open>dict\<close> with string keys. \<open>send_mcp_message\<close> writes into the
  caller's dict and appends that same object to the queue, so the dicts live in a heap
  and the queues hold references. \<open>message_queues\<close> is the \<open>defaultdict(list)\<close>: a key
  is absent until the first send to it. The values of the dicts and the receiver names
  are of one unspecified type \<open>'v\<close>.

  What a send reads from the outside is passed in: \<open>timestamp\<close> is
  \<open>datetime.now().isoformat()\<close> and \<open>make_id sender receiver\<close> the formatted
  \<open>message_id\<close> at the second reading of the clock; \<open>hashable\<close> says which values can
  be dictionary keys (indexing \<open>message_queues\<close> with another value raises
  \<open>TypeError\<close>, which both functions catch).
\<close>

type_synonym addr = nat

type_synonym 'v message = "string \<rightharpoonup> 'v"

datatype pyobject = NotADict | Dict addr

record 'v bus =
  heap :: "addr \<rightharpoonup> 'v message"
  message_queues :: "'v \<rightharpoonup> addr list"

record 'v stamp =
  timestamp :: 'v
  make_id :: "'v \<Rightarrow> 'v \<Rightarrow> 'v"

definition required_fields :: "string list" where
  "required_fields = [''sender'', ''receiver'', ''payload'']"

definition send_mcp_message ::
  "('v \<Rightarrow> bool) \<Rightarrow> 'v stamp \<Rightarrow> pyobject \<Rightarrow> 'v bus \<Rightarrow> bool \<times> 'v bus" where
  "send_mcp_message hashable now message s =
     (case message of
        NotADict \<Rightarrow> (False, s)
      | Dict a \<Rightarrow>
         (case heap s a of
            None \<Rightarrow> (False, s)
          | Some m \<Rightarrow>
             if \<not> list_all (\<lambda>field. m field \<noteq> None) required_fields then (False, s)
             else
               (let m1 = m(''timestamp'' \<mapsto> timestamp now);
                    m2 = m1(''message_id'' \<mapsto>
                            make_id now (the (m1 ''sender'')) (the (m1 ''receiver'')));
                    s1 = s\<lparr>heap := (heap s)(a \<mapsto> m2)\<rparr>;
                    receiver = the (m2 ''receiver'')
                in if \<not> hashable receiver then (False, s1)
                   else
                     (let queue = (case message_queues s1 receiver of
                                     None \<Rightarrow> [] | Some q \<Rightarrow> q)
                      in (True, s1\<lparr>message_queues :=
                                     (message_queues s1)(receiver \<mapsto> queue @ [a])\<rparr>)))))"

text \<open>
  \<open>receive_mcp_message\<close> returns the reference popped from the head of the queue, or
  \<open>None\<close>. The log line after the \<open>pop(0)\<close> reads \<open>message['sender']\<close>; when that
  key is missing the \<open>KeyError\<close> is caught and \<open>None\<close> is returned although the
  message has left the queue.
\<close>

definition receive_mcp_message ::
  "('v \<Rightarrow> bool) \<Rightarrow> 'v \<Rightarrow> 'v bus \<Rightarrow> addr option \<times> 'v bus" where
  "receive_mcp_message hashable receiver_name s =
     (if \<not> hashable receiver_name then (None, s)
      else
        (case message_queues s receiver_name of
           None \<Rightarrow> (None, s)
         | Some [] \<Rightarrow> (None, s)
         | Some (a # q) \<Rightarrow>
            (let s1 = s\<lparr>message_queues := (message_queues s)(receiver_name \<mapsto> q)\<rparr>
             in case heap s a of
                  None \<Rightarrow> (None, s1)
                | Some m \<Rightarrow> if m ''sender'' = None then (None, s1) else (Some a, s1))))"

definition peek_mcp_message :: "'v \<Rightarrow> 'v bus \<Rightarrow> nat" where
  "peek_mcp_message receiver_name s =
     (case message_queues s receiver_name of None \<Rightarrow> 0 | Some q \<Rightarrow> length q)"

definition clear_mcp_queue :: "'v \<Rightarrow> 'v bus \<Rightarrow> 'v bus" where
  "clear_mcp_queue receiver_name s =
     (case message_queues s receiver_name of
        None \<Rightarrow> s
      | Some q \<Rightarrow> s\<lparr>message_queues := (message_queues s)(receiver_name \<mapsto> [])\<rparr>)"

text \<open>A message with the three required fields, as a caller builds it.\<close>

definition draft :: "'v \<Rightarrow> 'v \<Rightarrow> 'v \<Rightarrow> 'v message" where
  "draft sender receiver payload =
     [''sender'' \<mapsto> sender, ''receiver'' \<mapsto> receiver, ''payload'' \<mapsto> payload]"

text \<open>A bus for the examples: three drafts for the receiver \<open>R\<close> in the heap, no queue.\<close>

definition three_drafts :: "string bus" where
  "three_drafts =
     \<lparr>heap = [0 \<mapsto> draft ''A'' ''R'' ''p1'', 1 \<mapsto> draft ''B'' ''R'' ''p2'',
              2 \<mapsto> draft ''A'' ''R'' ''p3''],
      message_queues = Map.empty\<rparr>"

definition any_key :: "string \<Rightarrow> bool" where
  "any_key v = True"

definition tick :: "string \<Rightarrow> string stamp" where
  "tick t = \<lparr>timestamp = t, make_id = (\<lambda>sender receiver. sender @ ''-'' @ receiver @ ''-'' @ t)\<rparr>"

text \<open>
  The queue of a receiver as a list (empty when the key is absent), and a reference
  to a dict that passes the checks of \<open>send_mcp_message\<close> and is addressed to \<open>R\<close>.
\<close>

definition pending :: "'v \<Rightarrow> 'v bus \<Rightarrow> addr list" where
  "pending receiver_name s =
     (case message_queues s receiver_name of None \<Rightarrow> [] | Some q \<Rightarrow> q)"

definition addressed_to :: "'v \<Rightarrow> 'v bus \<Rightarrow> addr \<Rightarrow> bool" where
  "addressed_to R s a =
     (case heap s a of
        None \<Rightarrow> False
      | Some m \<Rightarrow> m ''sender'' \<noteq> None \<and> m ''receiver'' = Some R \<and> m ''payload'' \<noteq> None)"

section \<open>Retrieval agent: the vector store\<close>

subsection \<open>The collaborators: FAISS index, files, embedding model\<close>

text \<open>
  \<open>faiss.IndexFlatL2\<close> keeps the rows added to it in order; \<open>ntotal\<close> is their number.
  \<open>add\<close> takes a two-dimensional array and asserts that its rows have the dimension
  of the index; the result \<open>None\<close> is the exception it raises otherwise, also for the
  array of no rows, which \<open>np.array\<close> makes one-dimensional. The entries of a row are
  of an unspecified type \<open>'a\<close> (\<open>float32\<close> in the program).
\<close>

record 'a faiss_index =
  dim :: nat
  rows :: "'a list list"

definition IndexFlatL2 :: "nat \<Rightarrow> 'a faiss_index" where
  "IndexFlatL2 n = \<lparr>dim = n, rows = []\<rparr>"

definition ntotal :: "'a faiss_index \<Rightarrow> nat" where
  "ntotal ix = length (rows ix)"


text \<open>
  The directory \<open>vector_store\<close> as a map from path to content. A file holds a
  serialized index, the null index that \<open>faiss.write_index\<close> writes for \<open>None\<close> and
  \<open>faiss.read_index\<close> reads back as \<open>None\<close>, a pickled dict
  \<open>{'chunks': \<dots>, 'documents': \<dots>}\<close>, or anything else (\<open>Garbage\<close>: truncated,
  of the wrong format, or lacking a key), which neither \<open>faiss.read_index\<close> nor the
  unpickling and the two subscripts get through.
\<close>

datatype 'a content =
  IndexBlob "'a faiss_index" | NullIndex | Pickle "pystr list" "pystr list" | Garbage

text \<open>\<open>faiss.read_index\<close> on the content of a path; the outer \<open>None\<close> is an exception.\<close>

definition read_index :: "'a content option \<Rightarrow> 'a faiss_index option option" where
  "read_index file =
     (case file of
        Some (IndexBlob ix) \<Rightarrow> Some (Some ix)
      | Some NullIndex \<Rightarrow> Some None
      | _ \<Rightarrow> None)"

text \<open>What \<open>faiss.write_index\<close> puts into the file for the value of \<open>vector_index\<close>.\<close>

definition serialized :: "'a faiss_index option \<Rightarrow> 'a content" where
  "serialized loaded = (case loaded of None \<Rightarrow> NullIndex | Some ix \<Rightarrow> IndexBlob ix)"

definition INDEX_FILE :: string where
  "INDEX_FILE = ''vector_store/faiss_index.bin''"

definition EMBEDDINGS_FILE :: string where
  "EMBEDDINGS_FILE = ''vector_store/embeddings.pkl''"

text \<open>
  What the operating system does at each call is an input: whether \<open>os.makedirs\<close> and
  the two \<open>os.remove\<close> succeed, and how each of the two writes of \<open>save_vector_store\<close>
  ends. A write that fails leaves the file as it was (it could not be opened) or
  leaves a partial file.
\<close>

datatype write_result = Written | FailedUntouched | FailedPartial

record io =
  makedirs_ok :: bool
  index_write :: write_result
  embeddings_write :: write_result
  remove_index_ok :: bool
  remove_embeddings_ok :: bool

definition write_file ::
  "write_result \<Rightarrow> string \<Rightarrow> 'a content \<Rightarrow> (string \<rightharpoonup> 'a content) \<Rightarrow> (string \<rightharpoonup> 'a content)"
  where
  "write_file r path c files =
     (case r of
        Written \<Rightarrow> files(path \<mapsto> c)
      | FailedUntouched \<Rightarrow> files
      | FailedPartial \<Rightarrow> files(path \<mapsto> Garbage))"

text \<open>The module's globals and the files.\<close>

record 'a store =
  vector_index :: "'a faiss_index option"
  stored_chunks :: "pystr list"
  document_mapping :: "pystr list"
  disk :: "string \<rightharpoonup> 'a content"

text \<open>\<open>xs[i]\<close> with Python's negative indices; \<open>None\<close> is the \<open>IndexError\<close>.\<close>

definition py_index :: "'b list \<Rightarrow> int \<Rightarrow> 'b option" where
  "py_index xs i =
     (let n = int (length xs); j = (if i < 0 then i + n else i)
      in if 0 \<le> j \<and> j < n then Some (xs ! nat j) else None)"

subsection \<open>The operations\<close>

text \<open>The block "create new vector store", which \<open>clear_vector_store\<close> repeats.\<close>

definition new_vector_store :: "'a store \<Rightarrow> 'a store" where
  "new_vector_store s =
     s\<lparr>vector_index := Some (IndexFlatL2 384), stored_chunks := [], document_mapping := []\<rparr>"

text \<open>
  \<open>initialize_vector_store\<close>: \<open>os.makedirs\<close> is outside the \<open>try\<close>, so its failure
  leaves the function as \<open>OSError\<close>. Any exception while reading falls through to the
  new store, which overwrites whatever the \<open>try\<close> block had assigned.
\<close>

definition initialize_vector_store :: "io \<Rightarrow> 'a store \<Rightarrow> (error + unit) \<times> 'a store" where
  "initialize_vector_store os s =
     (if \<not> makedirs_ok os then (Inl OSError, s)
      else if disk s INDEX_FILE \<noteq> None \<and> disk s EMBEDDINGS_FILE \<noteq> None then
        (case read_index (disk s INDEX_FILE) of
           None \<Rightarrow> (Inr (), new_vector_store s)
         | Some loaded \<Rightarrow>
             (case disk s EMBEDDINGS_FILE of
                Some (Pickle cs ds) \<Rightarrow>
                  (Inr (), s\<lparr>vector_index := loaded, stored_chunks := cs,
                             document_mapping := ds\<rparr>)
              | _ \<Rightarrow> (Inr (), new_vector_store s)))
      else (Inr (), new_vector_store s))"

text \<open>
  \<open>save_vector_store\<close>: the index is written to \<open>INDEX_FILE\<close>, then the dict to
  \<open>EMBEDDINGS_FILE\<close>; the first exception ends the function, caught and logged.
\<close>

definition save_vector_store :: "io \<Rightarrow> 'a store \<Rightarrow> 'a store" where
  "save_vector_store os s =
     (let d1 = write_file (index_write os) INDEX_FILE (serialized (vector_index s)) (disk s)
      in if index_write os \<noteq> Written then s\<lparr>disk := d1\<rparr>
         else s\<lparr>disk := write_file (embeddings_write os) EMBEDDINGS_FILE
                            (Pickle (stored_chunks s) (document_mapping s)) d1\<rparr>)"

text \<open>
  \<open>create_embeddings\<close>: the embedding model is a parameter; \<open>None\<close> is the caught
  exception.
\<close>

definition create_embeddings ::
  "(pystr list \<Rightarrow> 'a list list option) \<Rightarrow> pystr list \<Rightarrow> 'a list list option" where
  "create_embeddings encode texts = encode texts"


text \<open>
  The two loops of \<open>retrieve_chunks\<close> over the labels that the search returned. The
  first keeps the labels below \<open>len(stored_chunks)\<close> and reads both lists at them; the
  second, which writes the log, reads \<open>document_mapping\<close> at every label. \<open>None\<close> is an
  \<open>IndexError\<close>.
\<close>

fun collect :: "pystr list \<Rightarrow> pystr list \<Rightarrow> int list \<Rightarrow> (pystr \<times> pystr) list option" where
  "collect sc dm [] = Some []"
| "collect sc dm (idx # rest) =
     (if idx < int (length sc) then
        (case py_index sc idx of
           None \<Rightarrow> None
         | Some chunk \<Rightarrow>
            (case py_index dm idx of
               None \<Rightarrow> None
             | Some doc_name \<Rightarrow> map_option ((#) (chunk, doc_name)) (collect sc dm rest)))
      else collect sc dm rest)"

definition log_ranks :: "pystr list \<Rightarrow> int list \<Rightarrow> bool" where
  "log_ranks dm labels = list_all (\<lambda>idx. py_index dm idx \<noteq> None) labels"

record payload =
  about_query :: pystr
  top_chunks :: "(pystr \<times> pystr) list"
  num_results :: nat
  total_docs :: nat

text \<open>
  \<open>retrieve_chunks\<close>. The search of the index is a parameter: it returns the labels
  \<open>indices[0]\<close>, or \<open>None\<close> when it raises. The result is the returned list, the
  payload handed to \<open>send_mcp_message\<close> if the function got that far, and the store.
\<close>

definition retrieve_chunks ::
  "(pystr list \<Rightarrow> 'a list list option) \<Rightarrow> ('a faiss_index \<Rightarrow> 'a list list \<Rightarrow> int \<Rightarrow> int list option)
     \<Rightarrow> io \<Rightarrow> pystr \<Rightarrow> int \<Rightarrow> 'a store
     \<Rightarrow> (error + (pystr \<times> pystr) list) \<times> payload option \<times> 'a store" where
  "retrieve_chunks encode search os query top_k s =
     (case (if vector_index s = None then initialize_vector_store os s else (Inr (), s)) of
        (Inl e, s1) \<Rightarrow> (Inl e, None, s1)
      | (Inr u, s1) \<Rightarrow>
         if length (stored_chunks s1) = 0 then (Inr [], None, s1)
         else
           (case create_embeddings encode [query] of
              None \<Rightarrow> (Inr [], None, s1)
            | Some query_embedding \<Rightarrow>
               (case vector_index s1 of
                  None \<Rightarrow> (Inr [], None, s1)
                | Some ix \<Rightarrow>
                   (case search ix query_embedding
                           (min top_k (int (length (stored_chunks s1)))) of
                      None \<Rightarrow> (Inr [], None, s1)
                    | Some labels \<Rightarrow>
                       (case collect (stored_chunks s1) (document_mapping s1) labels of
                          None \<Rightarrow> (Inr [], None, s1)
                        | Some results \<Rightarrow>
                           if \<not> log_ranks (document_mapping s1) labels
                           then (Inr [], None, s1)
                           else (Inr results,
                                 Some \<lparr>about_query = query, top_chunks = results,
                                       num_results = length results,
                                       total_docs = card (set (document_mapping s1))\<rparr>,
                                 s1))))))"

record stats =
  total_chunks :: nat
  total_documents :: nat
  documents :: "pystr set"
  index_size :: nat

definition get_vector_store_stats :: "'a store \<Rightarrow> stats" where
  "get_vector_store_stats s =
     \<lparr>total_chunks = length (stored_chunks s),
      total_documents = card (set (document_mapping s)),
      documents = set (document_mapping s),
      index_size = (case vector_index s of None \<Rightarrow> 0 | Some ix \<Rightarrow> ntotal ix)\<rparr>"


subsection \<open>Properties that the claims speak of\<close>

text \<open>
  The three parallel collections have the same length; the size of an index that is
  still \<open>None\<close> counts as 0, as \<open>get_vector_store_stats\<close> reports it.
\<close>

definition aligned :: "'a store \<Rightarrow> bool" where
  "aligned s \<longleftrightarrow>
     length (document_mapping s) = length (stored_chunks s) \<and>
     index_size (get_vector_store_stats s) = length (stored_chunks s)"

text \<open>
  The pair of files as a snapshot, when both deserialize, and the structural
  consistency of the pair: the lengths of the two metadata lists agree with the number
  of vectors in the index (0 for the null index).
\<close>

definition snapshot ::
  "(string \<rightharpoonup> 'a content) \<Rightarrow> ('a faiss_index option \<times> pystr list \<times> pystr list) option"
  where
  "snapshot files =
     (case (read_index (files INDEX_FILE), files EMBEDDINGS_FILE) of
        (Some loaded, Some (Pickle cs ds)) \<Rightarrow> Some (loaded, cs, ds)
      | _ \<Rightarrow> None)"

definition pair_consistent :: "(string \<rightharpoonup> 'a content) \<Rightarrow> bool" where
  "pair_consistent files =
     (case snapshot files of
        None \<Rightarrow> True
      | Some (loaded, cs, ds) \<Rightarrow>
          (case loaded of None \<Rightarrow> 0 | Some ix \<Rightarrow> ntotal ix) = length cs \<and>
          length ds = length cs)"

subsection \<open>Stores and collaborators for the examples\<close>

definition all_ok :: io where
  "all_ok = \<lparr>makedirs_ok = True, index_write = Written, embeddings_write = Written,
             remove_index_ok = True, remove_embeddings_ok = True\<rparr>"

definition second_write_fails :: io where
  "second_write_fails = all_ok\<lparr>embeddings_write := FailedUntouched\<rparr>"

text \<open>
  An index of dimension 2 with two vectors next to metadata for one chunk, on disk,
  and the globals as they are before the module's first \<open>initialize_vector_store\<close>.
\<close>

definition two_vectors :: "int faiss_index" where
  "two_vectors = \<lparr>dim = 2, rows = [[1, 0], [0, 1]]\<rparr>"

definition mismatched_store :: "int store" where
  "mismatched_store =
     \<lparr>vector_index = None, stored_chunks = [], document_mapping = [],
      disk = [INDEX_FILE \<mapsto> IndexBlob two_vectors,
              EMBEDDINGS_FILE \<mapsto> Pickle [py ''only chunk''] [py ''a.txt'']]\<rparr>"

text \<open>
  A store with one vector and one chunk in memory and on disk, an embedding model that
  maps every text to the same vector, and a search that raises.
\<close>

definition one_vector :: "int faiss_index" where
  "one_vector = \<lparr>dim = 2, rows = [[1, 0]]\<rparr>"

definition small_store :: "int store" where
  "small_store =
     \<lparr>vector_index = Some one_vector, stored_chunks = [py ''first''],
      document_mapping = [py ''a.txt''],
      disk = [INDEX_FILE \<mapsto> IndexBlob one_vector,
              EMBEDDINGS_FILE \<mapsto> Pickle [py ''first''] [py ''a.txt'']]\<rparr>"

definition constant_encoder :: "pystr list \<Rightarrow> int list list option" where
  "constant_encoder texts = Some (map (\<lambda>t. [0, 1]) texts)"

definition raising_search :: "int faiss_index \<Rightarrow> int list list \<Rightarrow> int \<Rightarrow> int list option" where
  "raising_search ix q k = None"

text \<open>
  The same store after a second chunk has been appended in memory, with the files
  still holding the pair for one chunk.
\<close>

definition two_in_memory :: "int store" where
  "two_in_memory =
     \<lparr>vector_index = Some two_vectors, stored_chunks = [py ''first'', py ''second''],
      document_mapping = [py ''a.txt'', py ''b.txt''],
      disk = [INDEX_FILE \<mapsto> IndexBlob one_vector,
              EMBEDDINGS_FILE \<mapsto> Pickle [py ''first''] [py ''a.txt'']]\<rparr>"

definition empty_search :: "int faiss_index \<Rightarrow> int list list \<Rightarrow> int \<Rightarrow> int list option" where
  "empty_search ix q k = (if k = 0 then Some [] else None)"

subsection \<open>The search of the index, as the specification describes it\<close>

text \<open>
  Modelled from the spec: the distance of the search, "squared Euclidean distance"
  (section 4.2, \<open>search\<close>). The search itself is \<open>IndexFlatL2.search\<close> of the FAISS
  library, which is not among the repository's sources. The entries are taken from an
  ordered ring and the distance is exact, where the library computes in \<open>float32\<close>.
\<close>

definition squared_distance :: "'a::linordered_idom list \<Rightarrow> 'a list \<Rightarrow> 'a" where
  "squared_distance u v = (\<Sum>(a, b) \<leftarrow> zip u v. (a - b) * (a - b))"

text \<open>
  Modelled from the spec: the ranking of the search, "\<open>min(k, total_indexed)\<close> results
  ordered by ascending squared Euclidean distance (ties broken by insertion order --
  earlier-inserted entries rank first)": the positions of the index sorted by distance
  and then by position, cut after \<open>k\<close>.
\<close>

definition nearest :: "'a::linordered_idom faiss_index \<Rightarrow> 'a list \<Rightarrow> nat \<Rightarrow> nat list" where
  "nearest ix q k =
     take k (sort_key (\<lambda>i. (squared_distance (rows ix ! i) q, i)) [0..<ntotal ix])"

text \<open>
  Modelled from the spec: \<open>search(query_vector, k)\<close> with \<open>k \<ge> 1\<close> for the one query
  vector that \<open>retrieve_chunks\<close> passes as a one-row array; "\<open>search\<close> with \<open>k = 0\<close> is
  disallowed", so a smaller \<open>k\<close> (or another number of rows) raises.
\<close>

definition spec_search ::
  "'a::linordered_idom faiss_index \<Rightarrow> 'a list list \<Rightarrow> int \<Rightarrow> int list option" where
  "spec_search ix query_embedding k =
     (case query_embedding of
        [q] \<Rightarrow> if 1 \<le> k then Some (map int (nearest ix q (nat k))) else None
      | _ \<Rightarrow> None)"

section \<open>Facts about the chunker\<close>

lemma py_slice_to_end:
  assumes "0 \<le> i" "int (length xs) \<le> j"
  shows "py_slice xs i j = drop (nat i) xs"
  using assms by (auto simp: py_slice_def Let_def min_def max_def)

lemma window_reaches_end:
  assumes "0 \<le> start" "int (length text) \<le> start + chunk_size"
  shows "window text chunk_size start = Inr (start + chunk_size, drop (nat start) text)"
  using assms by (simp add: window_def Let_def py_slice_to_end)

text \<open>The three ways through one iteration of the loop.\<close>

lemma chunk_loop_exit:
  "\<not> start < int (length text) \<Longrightarrow>
     chunk_loop text chunk_size overlap start chunks = Some (Inr chunks)"
  by (subst chunk_loop.simps) simp

lemma chunk_loop_step:
  "start < int (length text) \<Longrightarrow> window text chunk_size start = Inr (e, chunk) \<Longrightarrow>
     chunk_loop text chunk_size overlap start chunks =
     chunk_loop text chunk_size overlap (e - overlap) (chunks @ [strip chunk])"
  by (subst chunk_loop.simps) simp

lemma chunk_loop_raise:
  "start < int (length text) \<Longrightarrow> window text chunk_size start = Inl err \<Longrightarrow>
     chunk_loop text chunk_size overlap start chunks = Some (Inl err)"
  by (subst chunk_loop.simps) simp

text \<open>
  When the whole text fits into one window, no window ever stops before the end of the
  text, so the loop walks the starts \<open>0, d, 2d, \<dots>\<close> with \<open>d = chunk_size - overlap\<close>
  and emits the suffix at each of them.
\<close>

lemma chunk_loop_fits:
  assumes fit: "int (length text) \<le> chunk_size"
    and d: "0 < d" "chunk_size - overlap = int d"
  shows "chunk_loop text chunk_size overlap (int (k * d)) acc =
     Some (Inr (acc @ map (\<lambda>i. strip (drop (i * d) text))
                        [i \<leftarrow> [k..<length text]. i * d < length text]))"
proof (induction "length text - k" arbitrary: k acc rule: less_induct)
  case less
  show ?case
  proof (cases "k * d < length text")
    case False
    have "i * d < length text \<Longrightarrow> k \<le> i \<Longrightarrow> False" for i
      using False mult_le_mono1[of k i d] by linarith
    then have "[i \<leftarrow> [k..<length text]. i * d < length text] = []"
      by (auto simp: filter_empty_conv)
    moreover have "\<not> int (k * d) < int (length text)"
      using False by (simp only: of_nat_less_iff not_False_eq_True)
    ultimately show ?thesis
      using chunk_loop_exit[of "int (k * d)" "text" chunk_size overlap acc] by simp
  next
    case True
    have "k \<le> k * d" using d(1) by (cases d) simp_all
    then have klt: "k < length text" using True by linarith
    have lt: "int (k * d) < int (length text)"
      using True by (simp only: of_nat_less_iff)
    have w: "window text chunk_size (int (k * d)) =
        Inr (int (k * d) + chunk_size, drop (k * d) text)"
    proof -
      have "int (length text) \<le> int (k * d) + chunk_size" using fit by linarith
      from window_reaches_end[OF _ this] show ?thesis
        by (simp only: nat_int of_nat_0_le_iff)
    qed
    have nxt: "int (k * d) + chunk_size - overlap = int (Suc k * d)"
      using d(2) by (simp add: algebra_simps)
    have ih: "chunk_loop text chunk_size overlap (int (Suc k * d))
        (acc @ [strip (drop (k * d) text)]) =
       Some (Inr ((acc @ [strip (drop (k * d) text)]) @ map (\<lambda>i. strip (drop (i * d) text))
                        [i \<leftarrow> [Suc k..<length text]. i * d < length text]))"
      by (rule less) (use klt in simp)
    have lst: "[i \<leftarrow> [k..<length text]. i * d < length text]
        = k # [i \<leftarrow> [Suc k..<length text]. i * d < length text]"
      using klt True by (simp add: upt_conv_Cons)
    show ?thesis
      by (simp only: chunk_loop_step[OF lt w] nxt ih lst list.map append_Cons append_Nil
          append_assoc)
  qed
qed

text \<open>What \<open>rfind\<close> returns: an index of the text or \<open>-1\<close>, holding the needle, and the last one.\<close>

lemma rfind_bounds: "- 1 \<le> rfind xs c \<and> rfind xs c < int (length xs)"
  by (induction xs) (auto simp: Let_def)

lemma rfind_hit: "0 \<le> rfind xs c \<Longrightarrow> xs ! nat (rfind xs c) = c"
proof (induction xs)
  case Nil
  then show ?case by simp
next
  case (Cons x xs)
  show ?case
  proof (cases "0 \<le> rfind xs c")
    case True
    then have "nat (rfind xs c + 1) = Suc (nat (rfind xs c))" by simp
    with True Cons.IH show ?thesis by (simp add: Let_def)
  next
    case False
    with Cons.prems show ?thesis by (simp add: Let_def split: if_splits)
  qed
qed

lemma rfind_last: "i < length xs \<Longrightarrow> xs ! i = c \<Longrightarrow> int i \<le> rfind xs c"
proof (induction xs arbitrary: i)
  case Nil
  then show ?case by simp
next
  case (Cons x xs)
  show ?case
  proof (cases i)
    case 0
    with Cons.prems show ?thesis using rfind_bounds[of xs c] by (simp add: Let_def)
  next
    case (Suc j)
    with Cons.prems have "int j \<le> rfind xs c" by (intro Cons.IH) simp_all
    with Suc show ?thesis by (simp add: Let_def)
  qed
qed

lemma bit_length_0: "n \<le> 0 \<Longrightarrow> bit_length n = 0"
  by (subst bit_length.simps) simp

lemma round_to_53_nonneg: "0 \<le> n \<Longrightarrow> 0 \<le> round_to_53 n"
  by (auto simp: round_to_53_def Let_def pos_imp_zdiv_nonneg_iff)

lemma float_mul_0_7_nonneg:
  assumes "0 \<le> chunk_size" "float_mul_0_7 chunk_size = Inr t"
  shows "0 \<le> t"
proof -
  have "0 \<le> round_to_53 (round_to_53 \<bar>chunk_size\<bar> * 6305039478318694)"
    by (intro round_to_53_nonneg mult_nonneg_nonneg) simp_all
  moreover have "0 \<le> sgn chunk_size" using assms(1) by (simp add: sgn_if)
  ultimately show ?thesis
    using assms(2) by (auto simp: float_mul_0_7_def Let_def split: if_splits)
qed

lemma py_slice_prefix:
  assumes "0 \<le> k" "k \<le> int (length xs)"
  shows "py_slice xs 0 k = take (nat k) xs"
  using assms by (simp add: py_slice_def Let_def min_def)

lemma last_filter_upt:
  assumes "k < n" "P k" "\<And>i. i < n \<Longrightarrow> P i \<Longrightarrow> i \<le> k"
  shows "filter P [0..<n] \<noteq> [] \<and> last (filter P [0..<n]) = k"
proof -
  have split: "[0..<n] = [0..<k] @ k # [Suc k..<n]"
    using assms(1) by (metis le_add1 less_imp_add_positive upt_add_eq_append upt_conv_Cons zero_order(1) plus_nat.add_0 less_eq_nat.simps(1) less_imp_le_nat)
  have "filter P [Suc k..<n] = []"
    using assms(3) by (fastforce simp: filter_empty_conv)
  with split assms(2) show ?thesis by simp
qed

text \<open>
  A start from which one iteration leads back to the same start is never left: the
  loop has no result.
\<close>

lemma chunk_loop_no_progress:
  assumes w: "window tx0 cs0 s0 = Inr (e, c)" and again: "e - ov0 = s0"
    and lt: "s0 < int (length tx0)"
  shows "chunk_loop tx0 cs0 ov0 s0 acc = None"
proof -
  have never: "\<not> (tx = tx0 \<and> cs = cs0 \<and> ov = ov0 \<and> st = s0)"
    if run: "chunk_loop tx cs ov st a = Some res" for tx cs ov st a res
  proof (rule chunk_loop.raw_induct[where P = "\<lambda>tx cs ov st a res.
           \<not> (tx = tx0 \<and> cs = cs0 \<and> ov = ov0 \<and> st = s0)", OF _ run], goal_cases)
    case (1 f tx cs ov st a res)
    show ?case
    proof
      assume "tx = tx0 \<and> cs = cs0 \<and> ov = ov0 \<and> st = s0"
      with 1(2) have "f tx0 cs0 ov0 s0 (a @ [strip c]) = Some res"
        by (simp add: w again lt)
      from 1(1)[OF this] show False by simp
    qed
  qed
  show ?thesis
  proof (cases "chunk_loop tx0 cs0 ov0 s0 acc")
    case None
    then show ?thesis .
  next
    case (Some res)
    from never[OF this] show ?thesis by simp
  qed
qed

text \<open>
  The conversion of \<open>chunk_size\<close> to a double raises \<open>OverflowError\<close> only for
  integers of more than a thousand bits: below \<open>2^1023\<close> in absolute value the product
  \<open>chunk_size * 0.7\<close> is a double.
\<close>

lemma bit_length_power: "0 < n \<Longrightarrow> 2 ^ bit_length n \<le> 2 * n"
proof (induction n rule: bit_length.induct)
  case (1 n)
  show ?case
  proof (cases "n div 2 \<le> 0")
    case True
    with 1(2) have "n = 1" by linarith
    then show ?thesis
      by (subst bit_length.simps, subst bit_length.simps) simp
  next
    case False
    with 1 have "2 ^ bit_length (n div 2) \<le> 2 * (n div 2)" by simp
    also have "\<dots> \<le> n" by simp
    finally show ?thesis
      using 1(2) by (subst bit_length.simps) simp
  qed
qed

lemma round_to_53_le_double: "0 \<le> n \<Longrightarrow> round_to_53 n \<le> 2 * n"
proof (cases "bit_length n \<le> 53")
  case True
  assume "0 \<le> n"
  with True show ?thesis by (simp add: round_to_53_def)
next
  case False
  assume n0: "0 \<le> n"
  define s where "s = bit_length n - 53"
  have npos: "0 < n" using False n0 bit_length_0[of n] by (cases "n = 0") auto
  define p :: int where "p = 2 ^ s"
  have p0: "0 < p" by (simp add: p_def)
  have "bit_length n = s + 53" using False by (simp add: s_def)
  then have "(2::int) ^ bit_length n = p * 2 ^ 53" by (simp only: power_add p_def)
  with bit_length_power[OF npos] have "p * 2 ^ 53 \<le> 2 * n" by simp
  with p0 have "p \<le> n" by simp
  then have pow: "(2::int) ^ s \<le> n" by (simp add: p_def)
  have "n div 2 ^ s * 2 ^ s \<le> n"
    by (metis add.commute add_0 div_mod_decomp_int le_add_same_cancel1 pos_mod_sign
        zero_less_numeral zero_less_power)
  then have "(n div 2 ^ s + 1) * 2 ^ s \<le> 2 * n"
    using pow by (simp add: algebra_simps)
  moreover have "n div 2 ^ s * 2 ^ s \<le> 2 * n"
    using \<open>n div 2 ^ s * 2 ^ s \<le> n\<close> n0 by linarith
  ultimately show ?thesis
    using False by (simp add: round_to_53_def Let_def s_def)
qed

lemma float_mul_0_7_in_range:
  assumes "\<bar>chunk_size\<bar> < 2 ^ 1023"
  shows "\<exists>t. float_mul_0_7 chunk_size = Inr t"
proof -
  have "round_to_53 \<bar>chunk_size\<bar> \<le> 2 * \<bar>chunk_size\<bar>"
    by (rule round_to_53_le_double) simp
  also have "\<dots> < 2 * 2 ^ 1023" using assms by linarith
  finally have "round_to_53 \<bar>chunk_size\<bar> < 2 ^ 1024" by simp
  then show ?thesis by (simp add: float_mul_0_7_def Let_def)
qed

text \<open>
  A window is at most \<open>chunk_size\<close> characters long, so one iteration moves \<open>end\<close> at
  most \<open>chunk_size\<close> past \<open>start\<close>; and an iteration ends in a result whenever the
  product \<open>chunk_size * 0.7\<close> is a double.
\<close>

lemma py_slice_length_le:
  assumes "0 \<le> c"
  shows "int (length (py_slice xs i (i + c))) \<le> c"
  using assms by (auto simp: py_slice_def Let_def min_def max_def)

lemma window_end_le:
  assumes "0 \<le> chunk_size" and "window text chunk_size start = Inr (e, c)"
  shows "e \<le> start + chunk_size"
proof -
  define chunk where "chunk = py_slice text start (start + chunk_size)"
  have len: "int (length chunk) \<le> chunk_size"
    unfolding chunk_def by (rule py_slice_length_le[OF assms(1)])
  have "max (max (rfind chunk 46) (rfind chunk 10)) (rfind chunk 32) < int (length chunk)"
    using rfind_bounds[of chunk 46] rfind_bounds[of chunk 10] rfind_bounds[of chunk 32]
    by simp
  with len have "start + max (max (rfind chunk 46) (rfind chunk 10)) (rfind chunk 32) + 1
      \<le> start + chunk_size"
    by linarith
  then show ?thesis
    using assms(2)
    by (auto simp: window_def Let_def chunk_def split: if_splits sum.splits)
qed

lemma window_returns:
  assumes "float_mul_0_7 chunk_size = Inr t"
  shows "\<exists>e c. window text chunk_size start = Inr (e, c)"
  using assms by (auto simp: window_def Let_def)

text \<open>
  The configuration that \<open>process_document\<close> uses, \<open>chunk_size = 500\<close> and
  \<open>overlap = 50\<close>: the product \<open>500 * 0.7\<close> is exactly \<open>350.0\<close>, so a break point is
  accepted from index 351 on, every iteration moves the start forward by at least 302,
  and the call returns at least one chunk for every non-empty text. The product
  \<open>90 * 0.7\<close> is rounded below 63: there the index 63, at exactly 70 percent, is
  accepted.
\<close>

lemma default_threshold: "float_mul_0_7 500 = Inr 3152519739159347200"
  by code_simp

lemma default_accepts: "int_gt_float i 3152519739159347200 \<longleftrightarrow> 350 < i"
  by (simp add: int_gt_float_def)

lemma rounded_threshold:
  "float_mul_0_7 90 = Inr 567453553048682432 \<and> int_gt_float 63 567453553048682432"
  by code_simp

lemma window_default:
  assumes "window text 500 start = Inr (e, c)"
  shows "start + 352 \<le> e"
proof -
  have "int_gt_float bp 3152519739159347200 \<Longrightarrow> start + 352 \<le> start + bp + 1" for bp
    by (simp add: default_accepts)
  then show ?thesis
    using assms
    by (auto simp: window_def Let_def default_threshold default_accepts split: if_splits)
qed

lemma window_default_total: "\<exists>e c. window text 500 start = Inr (e, c)"
  by (auto simp: window_def Let_def default_threshold)

lemma chunk_loop_default:
  "\<exists>r. chunk_loop text 500 50 start acc = Some (Inr (acc @ r)) \<and>
        (start < int (length text) \<longrightarrow> r \<noteq> [])"
proof (induction "nat (int (length text) - start)" arbitrary: start acc rule: less_induct)
  case less
  show ?case
  proof (cases "start < int (length text)")
    case False
    then show ?thesis by (simp add: chunk_loop_exit)
  next
    case True
    from window_default_total obtain e c where w: "window text 500 start = Inr (e, c)"
      by blast
    from window_default[OF w] have "nat (int (length text) - (e - 50)) <
        nat (int (length text) - start)"
      using True by linarith
    from less[OF this, of "acc @ [strip c]"] obtain r where
      r: "chunk_loop text 500 50 (e - 50) (acc @ [strip c]) = Some (Inr ((acc @ [strip c]) @ r))"
      by blast
    have "chunk_loop text 500 50 start acc = Some (Inr (acc @ (strip c # r)))"
      using chunk_loop_step[OF True w, of 50 acc] r by simp
    with True show ?thesis by blast
  qed
qed

lemma chunk_text_default_terminates:
  assumes "text \<noteq> []"
  shows "\<exists>r. chunk_text text 500 50 = Some (Inr r) \<and> r \<noteq> []"
  using chunk_loop_default[of "text" 0 "[]"] assms by (auto simp: chunk_text_def)

section \<open>Claims about the chunker\<close>

text \<open>
  Claim C10. A non-empty text that fits into one window (\<open>len(text) \<le> chunk_size\<close>,
  \<open>0 \<le> overlap < chunk_size\<close>) gives the whole text, stripped, as the first chunk, and
  after it the stripped suffixes \<open>text[i * (chunk_size - overlap):]\<close> for \<open>i = 1, 2, \<dots>\<close>
  as long as \<open>i * (chunk_size - overlap) < len(text)\<close>; there is at least one such
  suffix whenever \<open>chunk_size - overlap < len(text)\<close>.
\<close>

theorem chunk_text_within_one_window:
  assumes "text \<noteq> []" and "int (length text) \<le> chunk_size"
    and "0 \<le> overlap" and "overlap < chunk_size"
  shows "chunk_text text chunk_size overlap =
     Some (Inr (strip text #
       map (\<lambda>i. strip (py_slice text (int i * (chunk_size - overlap)) (int (length text))))
         [i \<leftarrow> [1..<length text]. int i * (chunk_size - overlap) < int (length text)])) \<and>
     (chunk_size - overlap < int (length text) \<longrightarrow>
        [i \<leftarrow> [1..<length text]. int i * (chunk_size - overlap) < int (length text)] \<noteq> [])"
proof -
  define d where "d = nat (chunk_size - overlap)"
  have d: "0 < d" "chunk_size - overlap = int d" using assms by (simp_all add: d_def)
  have n: "0 < length text" using assms(1) by simp
  have "chunk_loop text chunk_size overlap (int (0 * d)) [] =
     Some (Inr ([] @ map (\<lambda>i. strip (drop (i * d) text))
                        [i \<leftarrow> [0..<length text]. i * d < length text]))"
    by (rule chunk_loop_fits[OF assms(2) d])
  moreover have "[i \<leftarrow> [0..<length text]. i * d < length text]
      = 0 # [i \<leftarrow> [1..<length text]. i * d < length text]"
    using n by (simp add: upt_conv_Cons)
  ultimately have ct: "chunk_text text chunk_size overlap = Some (Inr (strip text #
      map (\<lambda>i. strip (drop (i * d) text)) [i \<leftarrow> [1..<length text]. i * d < length text]))"
    using assms(1) by (simp add: chunk_text_def)
  have sl: "py_slice text (int i * (chunk_size - overlap)) (int (length text)) =
      drop (i * d) text" for i
    using py_slice_to_end[of "int (i * d)" "text" "int (length text)"] d(2)
    by (simp flip: of_nat_mult)
  have cond: "int i * (chunk_size - overlap) < int (length text) \<longleftrightarrow> i * d < length text"
    for i
    unfolding d(2) by (metis of_nat_less_iff of_nat_mult)
  have more: "[i \<leftarrow> [1..<length text]. i * d < length text] \<noteq> []"
    if "chunk_size - overlap < int (length text)"
  proof -
    from that have "d < length text" using d(2) by simp
    then have "1 \<in> set [i \<leftarrow> [1..<length text]. i * d < length text]" using d(1) by auto
    then show ?thesis by (metis empty_iff empty_set)
  qed
  show ?thesis
    using ct more by (simp add: sl cond)
qed

theorem chunk_text_within_one_window_witness:
  "py ''ab cd'' \<noteq> [] \<and> int (length (py ''ab cd'')) \<le> 6 \<and> (0::int) \<le> 4 \<and> (4::int) < 6 \<and>
   (6::int) - 4 < int (length (py ''ab cd'')) \<and>
   chunk_text (py ''ab cd'') 6 4 = Some (Inr [py ''ab cd'', py ''cd'', py ''d''])"
proof -
  have h1: "py ''ab cd'' \<noteq> []" by code_simp
  have h2: "int (length (py ''ab cd'')) \<le> 6" by code_simp
  have h3: "(6::int) - 4 < int (length (py ''ab cd''))" by code_simp
  have r: "strip (py ''ab cd'') #
       map (\<lambda>i. strip (py_slice (py ''ab cd'') (int i * (6 - 4)) (int (length (py ''ab cd'')))))
         [i \<leftarrow> [1..<length (py ''ab cd'')]. int i * (6 - 4) < int (length (py ''ab cd''))]
       = [py ''ab cd'', py ''cd'', py ''d'']"
    by code_simp
  from chunk_text_within_one_window[OF h1 h2, of 4] h1 h2 h3 show ?thesis
    unfolding r by simp
qed

text \<open>
  Claim C2. With \<open>chunk_size > 0\<close> and \<open>0 \<le> overlap < chunk_size\<close>, \<open>chunk_text\<close> is to
  return at least one chunk for every non-empty text. On the 20 characters
  \<open>aaaaaaaa.aaaaaaaaaaa\<close> with \<open>chunk_size = 10\<close> and \<open>overlap = 9\<close> the first window is
  cut after the full stop at index 8, so \<open>end = 9\<close> and the next start is \<open>9 - 9 = 0\<close>
  again: the call does not return.
\<close>

theorem chunk_text_stalls: "chunk_text (py ''aaaaaaaa.aaaaaaaaaaa'') 10 9 = None"
proof -
  have w: "window stall_text 10 0 = Inr (9, py ''aaaaaaaa.'')" by code_simp
  have len: "(0::int) < int (length stall_text)" by code_simp
  have ne: "stall_text \<noteq> []" by code_simp
  have "chunk_loop stall_text 10 9 0 [] = None"
    by (rule chunk_loop_no_progress[OF w _ len]) simp
  with ne show ?thesis by (simp add: chunk_text_def stall_text_def)
qed

text \<open>
  Claim C5, as stated: in a window that stops before the end of the text the break
  point is chosen by kind (full stop before newline before space) and accepted when it
  lies at or past 70 percent of \<open>chunk_size\<close>. The source takes the greatest of the
  three positions and accepts it only when it is strictly greater than
  \<open>chunk_size * 0.7\<close>. In the window \<open>aa.aaaaa a\<close> the source breaks after the space at
  index 8 where the stated rule keeps the full window (its full stop at index 2 is too
  early); in the window \<open>aaaaaaa.aa\<close> the full stop at index 7 is exactly at 70 percent
  and the source keeps the full window where the stated rule breaks.
\<close>

theorem window_break_rule_counterexample:
  "window (py ''aa.aaaaa aaaaaaaaaaa'') 10 0 = Inr (9, py ''aa.aaaaa '') \<and>
   spec_window (py ''aa.aaaaa aaaaaaaaaaa'') 10 0 = (10, py ''aa.aaaaa a'') \<and>
   window (py ''aaaaaaa.aaaaaaaaaaaa'') 10 0 = Inr (10, py ''aaaaaaa.aa'') \<and>
   spec_window (py ''aaaaaaa.aaaaaaaaaaaa'') 10 0 = (8, py ''aaaaaaa.'')"
  by code_simp

text \<open>
  Claim C5, amended. In a window that stops before the end of the text
  (\<open>start + chunk_size < len(text)\<close>, \<open>chunk_size \<ge> 0\<close>), the break point is the last
  position of the window that holds a full stop, a newline or a space, whatever its
  kind, and it is accepted exactly when it is strictly greater than the double
  \<open>chunk_size * 0.7\<close>: the chunk is then the window up to and including that position,
  and otherwise the full window.
\<close>

theorem window_break_rule:
  assumes "start + chunk_size < int (length text)" and "0 \<le> chunk_size"
    and "float_mul_0_7 chunk_size = Inr t"
  shows "window text chunk_size start =
     (let chunk = py_slice text start (start + chunk_size);
          bs = late_boundaries chunk t
      in if bs = [] then Inr (start + chunk_size, chunk)
         else Inr (start + int (last bs) + 1, take (Suc (last bs)) chunk))"
proof -
  define chunk where "chunk = py_slice text start (start + chunk_size)"
  define bp where "bp = max (max (rfind chunk 46) (rfind chunk 10)) (rfind chunk 32)"
  define P where "P = (\<lambda>i. chunk ! i \<in> {46, 10, 32} \<and> int_gt_float (int i) t)"
  have bs: "late_boundaries chunk t = filter P [0..<length chunk]"
    by (simp add: late_boundaries_def P_def)
  have t0: "0 \<le> t" using assms(2,3) by (rule float_mul_0_7_nonneg)
  have w: "window text chunk_size start =
      (if int_gt_float bp t then Inr (start + bp + 1, py_slice chunk 0 (bp + 1))
       else Inr (start + chunk_size, chunk))"
    using assms(1,3) by (simp add: window_def Let_def chunk_def bp_def)
  have le_bp: "int i \<le> bp" if "i < length chunk" "chunk ! i \<in> {46, 10, 32}" for i
    using that rfind_last[of i chunk 46] rfind_last[of i chunk 10] rfind_last[of i chunk 32]
    by (auto simp: bp_def)
  have bp_lt: "bp < int (length chunk)"
    using rfind_bounds[of chunk 46] rfind_bounds[of chunk 10] rfind_bounds[of chunk 32]
    by (simp add: bp_def)
  have bp_hit: "chunk ! nat bp \<in> {46, 10, 32}" if "0 \<le> bp"
  proof -
    have "bp = rfind chunk 46 \<or> bp = rfind chunk 10 \<or> bp = rfind chunk 32"
      by (auto simp: bp_def max_def)
    then show ?thesis
      using that rfind_hit[of chunk 46] rfind_hit[of chunk 10] rfind_hit[of chunk 32] by auto
  qed
  show ?thesis
  proof (cases "int_gt_float bp t")
    case True
    then have bp0: "0 \<le> bp" using t0
      by (simp add: int_gt_float_def)
    have k: "nat bp < length chunk" using bp0 bp_lt by simp
    have Pk: "P (nat bp)" using True bp0 bp_hit by (simp add: P_def)
    have up: "i \<le> nat bp" if "i < length chunk" "P i" for i
      using le_bp[of i] that by (simp add: P_def)
    from last_filter_upt[of "nat bp" "length chunk" P, OF k Pk up]
    have ne: "late_boundaries chunk t \<noteq> []" and lst: "last (late_boundaries chunk t) = nat bp"
      by (simp_all add: bs)
    have "nat (bp + 1) = Suc (nat bp)" using bp0 by simp
    then have "py_slice chunk 0 (bp + 1) = take (Suc (nat bp)) chunk"
      using py_slice_prefix[of "bp + 1" chunk] bp0 bp_lt by simp
    with True w ne lst bp0 show ?thesis
      by (simp add: Let_def chunk_def[symmetric])
  next
    case False
    have "\<not> P i" if "i < length chunk" for i
    proof
      assume "P i"
      then have "int i \<le> bp" "int_gt_float (int i) t"
        using le_bp[of i] that by (simp_all add: P_def)
      then have "int_gt_float bp t"
        by (simp add: int_gt_float_def)
      with False show False by simp
    qed
    then have "late_boundaries chunk t = []"
      by (simp add: bs filter_empty_conv)
    with False w show ?thesis
      by (simp add: Let_def chunk_def[symmetric])
  qed
qed

theorem window_break_rule_witness:
  "(0::int) + 10 < int (length (py ''aa.aaaaa aaaaaaaaaaa'')) \<and> (0::int) \<le> 10 \<and>
   float_mul_0_7 10 = Inr 63050394783186944 \<and>
   late_boundaries (py ''aa.aaaaa a'') 63050394783186944 = [8] \<and>
   window (py ''aa.aaaaa aaaaaaaaaaa'') 10 0 = Inr (9, py ''aa.aaaaa '')"
proof -
  have h1: "(0::int) + 10 < int (length (py ''aa.aaaaa aaaaaaaaaaa''))" by code_simp
  have h2: "(0::int) \<le> 10" by simp
  have h3: "float_mul_0_7 10 = Inr 63050394783186944" by code_simp
  have b: "late_boundaries (py ''aa.aaaaa a'') 63050394783186944 = [8]" by code_simp
  have r: "(let chunk = py_slice (py ''aa.aaaaa aaaaaaaaaaa'') 0 (0 + 10);
          bs = late_boundaries chunk 63050394783186944
      in if bs = [] then Inr (0 + 10, chunk)
         else Inr (0 + int (last bs) + 1, take (Suc (last bs)) chunk))
      = (Inr (9, py ''aa.aaaaa '') :: error + int \<times> pystr)"
    by code_simp
  from window_break_rule[OF h1 h2 h3] h1 h2 h3 b show ?thesis
    unfolding r by simp
qed

text \<open>
  Claim C8. A configuration with \<open>overlap \<ge> chunk_size\<close> is to be rejected at the
  interface instead of looping forever. The source has no check of the configuration,
  and the loop it enters is never left: with \<open>0 < chunk_size \<le> overlap\<close> (and
  \<open>chunk_size * 0.7\<close> a double) every window ends at most \<open>chunk_size\<close> past its
  start, so the next start is never above 0, and for every non-empty text the call
  does not return. Each pass appends a chunk, so the program runs until its memory is
  exhausted. On \<open>abc\<close> with \<open>chunk_size = overlap = 5\<close> the only window is \<open>abc\<close>,
  \<open>end = 5\<close> and the next start is 0 again.
\<close>

theorem chunk_text_overlap_stalls:
  assumes "0 < chunk_size" and "chunk_size \<le> overlap" and "text \<noteq> []"
    and "float_mul_0_7 chunk_size = Inr t"
  shows "chunk_text text chunk_size overlap = None"
proof -
  have never: "\<not> (tx = text \<and> cs = chunk_size \<and> ov = overlap \<and> st \<le> 0)"
    if run: "chunk_loop tx cs ov st a = Some res" for tx cs ov st a res
  proof (rule chunk_loop.raw_induct[where P = "\<lambda>tx cs ov st a res.
           \<not> (tx = text \<and> cs = chunk_size \<and> ov = overlap \<and> st \<le> 0)", OF _ run], goal_cases)
    case (1 f tx cs ov st a res)
    show ?case
    proof
      assume a: "tx = text \<and> cs = chunk_size \<and> ov = overlap \<and> st \<le> 0"
      have pos: "0 < int (length text)" using assms(3) by simp
      from a have eqs: "tx = text" "st \<le> 0" by simp_all
      have lt: "st < int (length tx)" unfolding eqs(1) using eqs(2) pos by linarith
      from window_returns[OF assms(4), of "text" st] obtain e c where
        w: "window text chunk_size st = Inr (e, c)" by blast
      from window_end_le[OF _ w] assms(1) have "e \<le> st + chunk_size" by simp
      with a assms(2) have again: "e - overlap \<le> 0" by linarith
      from 1(2) a lt w have "f text chunk_size overlap (e - overlap) (a @ [strip c]) = Some res"
        by simp
      from 1(1)[OF this] again show False by simp
    qed
  qed
  show ?thesis
  proof (cases "chunk_text text chunk_size overlap")
    case None
    then show ?thesis .
  next
    case (Some res)
    with assms(3) have "chunk_loop text chunk_size overlap 0 [] = Some res"
      by (simp add: chunk_text_def)
    from never[OF this] show ?thesis by simp
  qed
qed

theorem chunk_text_overlap_stalls_witness:
  "(0::int) < 5 \<and> (5::int) \<le> 5 \<and> py ''abc'' \<noteq> [] \<and>
   float_mul_0_7 5 = Inr 31525197391593472 \<and>
   window (py ''abc'') 5 0 = Inr (5, py ''abc'') \<and>
   chunk_text (py ''abc'') 5 5 = None"
proof -
  have h3: "py ''abc'' \<noteq> []" by code_simp
  have h4: "float_mul_0_7 5 = Inr 31525197391593472" by code_simp
  have w: "window (py ''abc'') 5 0 = Inr (5, py ''abc'')" by code_simp
  from chunk_text_overlap_stalls[OF _ _ h3 h4, of 5] h3 h4 w show ?thesis by simp
qed

section \<open>Facts about the message bus\<close>

text \<open>
  A send of a well-formed dict addressed to \<open>R\<close> succeeds and puts its reference at the
  tail of the queue of \<open>R\<close>; a receive takes the head. Both keep every well-formed
  dict well-formed (a send only adds the keys \<open>timestamp\<close> and \<open>message_id\<close>).
\<close>

lemma send_delivers:
  assumes "hashable R" and "addressed_to R s a"
  shows "\<exists>s'. send_mcp_message hashable now (Dict a) s = (True, s') \<and>
           pending R s' = pending R s @ [a] \<and>
           (\<forall>b. addressed_to R s b \<longrightarrow> addressed_to R s' b)"
proof -
  from assms(2) obtain m where m: "heap s a = Some m" "m ''sender'' \<noteq> None"
      "m ''receiver'' = Some R" "m ''payload'' \<noteq> None"
    by (auto simp: addressed_to_def split: option.splits)
  define s' where "s' = snd (send_mcp_message hashable now (Dict a) s)"
  have run: "send_mcp_message hashable now (Dict a) s = (True, s')"
    unfolding s'_def using assms(1) m
    by (simp add: send_mcp_message_def required_fields_def Let_def)
  have q: "message_queues s' = (message_queues s)(R \<mapsto> pending R s @ [a])"
    unfolding s'_def using assms(1) m
    by (simp add: send_mcp_message_def required_fields_def Let_def pending_def)
  have h: "heap s' = (heap s)(a \<mapsto> m(''timestamp'' \<mapsto> timestamp now,
                 ''message_id'' \<mapsto> make_id now (the (m ''sender'')) R))"
    unfolding s'_def using assms(1) m
    by (simp add: send_mcp_message_def required_fields_def Let_def)
  have "addressed_to R s' b" if "addressed_to R s b" for b
    using that m by (auto simp: addressed_to_def h split: option.splits)
  with run q show ?thesis by (simp add: pending_def)
qed

lemma receive_head:
  assumes "hashable R" and "pending R s = a # q" and "addressed_to R s a"
  shows "\<exists>s'. receive_mcp_message hashable R s = (Some a, s') \<and> pending R s' = q \<and>
           (\<forall>b. addressed_to R s b \<longrightarrow> addressed_to R s' b)"
  using assms
  by (auto simp: receive_mcp_message_def pending_def addressed_to_def Let_def
      split: option.splits list.splits)

lemma receive_nothing:
  assumes "pending R s = []"
  shows "fst (receive_mcp_message hashable R s) = None"
  using assms
  by (auto simp: receive_mcp_message_def pending_def split: option.splits list.splits)

section \<open>Claims about the message bus\<close>

text \<open>
  Claim C7. For every receiver name \<open>R\<close> (a value that can be a dictionary key) whose
  queue is empty or absent: after sending the envelopes \<open>E1\<close>, \<open>E2\<close>, \<open>E3\<close> to \<open>R\<close>,
  three successive calls of \<open>receive_mcp_message(R)\<close> return \<open>E1\<close>, \<open>E2\<close>, \<open>E3\<close> in that
  order, each call removing the returned envelope from the queue, and a fourth call
  returns \<open>None\<close>. The envelopes are the dict objects themselves (\<open>ea\<close>, \<open>eb\<close>, \<open>ec\<close> are
  their references, which need not be distinct).
\<close>

theorem bus_fifo:
  assumes "hashable R" and "pending R s = []"
    and "addressed_to R s ea" and "addressed_to R s eb" and "addressed_to R s ec"
  shows "(let (r1, s1) = send_mcp_message hashable na (Dict ea) s;
              (r2, s2) = send_mcp_message hashable nb (Dict eb) s1;
              (r3, s3) = send_mcp_message hashable nc (Dict ec) s2;
              (m1, s4) = receive_mcp_message hashable R s3;
              (m2, s5) = receive_mcp_message hashable R s4;
              (m3, s6) = receive_mcp_message hashable R s5;
              (m4, s7) = receive_mcp_message hashable R s6
          in r1 \<and> r2 \<and> r3 \<and> pending R s3 = [ea, eb, ec] \<and>
             m1 = Some ea \<and> pending R s4 = [eb, ec] \<and>
             m2 = Some eb \<and> pending R s5 = [ec] \<and>
             m3 = Some ec \<and> pending R s6 = [] \<and>
             m4 = None)"
proof -
  from send_delivers[where hashable = hashable and R = R and now = na, OF assms(1,3)] obtain s1 where
    s1: "send_mcp_message hashable na (Dict ea) s = (True, s1)"
      "pending R s1 = [ea]" "\<And>b. addressed_to R s b \<Longrightarrow> addressed_to R s1 b"
    using assms(2) by auto
  from send_delivers[where hashable = hashable and R = R and now = nb, OF assms(1) s1(3)[OF assms(4)]] obtain s2 where
    s2: "send_mcp_message hashable nb (Dict eb) s1 = (True, s2)"
      "pending R s2 = [ea, eb]" "\<And>b. addressed_to R s1 b \<Longrightarrow> addressed_to R s2 b"
    using s1(2) by auto
  from send_delivers[where hashable = hashable and R = R and now = nc, OF assms(1) s2(3)[OF s1(3)[OF assms(5)]]] obtain s3 where
    s3: "send_mcp_message hashable nc (Dict ec) s2 = (True, s3)"
      "pending R s3 = [ea, eb, ec]" "\<And>b. addressed_to R s2 b \<Longrightarrow> addressed_to R s3 b"
    using s2(2) by auto
  have v3: "addressed_to R s3 ea" "addressed_to R s3 eb" "addressed_to R s3 ec"
    using s1(3) s2(3) s3(3) assms(3-5) by blast+
  from receive_head[where hashable = hashable and R = R, OF assms(1) s3(2) v3(1)] obtain s4 where
    s4: "receive_mcp_message hashable R s3 = (Some ea, s4)" "pending R s4 = [eb, ec]"
      "\<And>b. addressed_to R s3 b \<Longrightarrow> addressed_to R s4 b"
    by auto
  from receive_head[where hashable = hashable and R = R, OF assms(1) s4(2) s4(3)[OF v3(2)]] obtain s5 where
    s5: "receive_mcp_message hashable R s4 = (Some eb, s5)" "pending R s5 = [ec]"
      "\<And>b. addressed_to R s4 b \<Longrightarrow> addressed_to R s5 b"
    by auto
  from receive_head[where hashable = hashable and R = R, OF assms(1) s5(2) s5(3)[OF s4(3)[OF v3(3)]]] obtain s6 where
    s6: "receive_mcp_message hashable R s5 = (Some ec, s6)" "pending R s6 = []"
    by auto
  obtain m4 s7 where s7: "receive_mcp_message hashable R s6 = (m4, s7)"
    by (cases "receive_mcp_message hashable R s6")
  with receive_nothing[OF s6(2), of hashable] have "m4 = None" by simp
  with s1 s2 s3 s4 s5 s6 s7 show ?thesis by simp
qed

theorem bus_fifo_witness:
  "any_key ''R'' \<and> pending ''R'' three_drafts = [] \<and>
   addressed_to ''R'' three_drafts 0 \<and> addressed_to ''R'' three_drafts 1 \<and>
   addressed_to ''R'' three_drafts 2 \<and>
   (let (r1, s1) = send_mcp_message any_key (tick ''t1'') (Dict 0) three_drafts;
        (r2, s2) = send_mcp_message any_key (tick ''t2'') (Dict 1) s1;
        (r3, s3) = send_mcp_message any_key (tick ''t3'') (Dict 2) s2;
        (m1, s4) = receive_mcp_message any_key ''R'' s3;
        (m2, s5) = receive_mcp_message any_key ''R'' s4;
        (m3, s6) = receive_mcp_message any_key ''R'' s5;
        (m4, s7) = receive_mcp_message any_key ''R'' s6
    in r1 \<and> r2 \<and> r3 \<and> pending ''R'' s3 = [0, 1, 2] \<and>
       m1 = Some 0 \<and> pending ''R'' s4 = [1, 2] \<and>
       m2 = Some 1 \<and> pending ''R'' s5 = [2] \<and>
       m3 = Some 2 \<and> pending ''R'' s6 = [] \<and>
       m4 = None)"
proof -
  have h1: "any_key ''R''" by (simp add: any_key_def)
  have h2: "pending ''R'' three_drafts = []" by (simp add: pending_def three_drafts_def)
  have h3: "addressed_to ''R'' three_drafts 0" "addressed_to ''R'' three_drafts 1"
      "addressed_to ''R'' three_drafts 2"
    by (simp_all add: addressed_to_def three_drafts_def draft_def)
  from bus_fifo[where hashable = any_key and R = "''R''" and na = "tick ''t1''"
      and nb = "tick ''t2''" and nc = "tick ''t3''", OF h1 h2 h3] h1 h2 h3
  show ?thesis by simp
qed

section \<open>Facts about the vector store\<close>

lemma file_names_differ: "INDEX_FILE \<noteq> EMBEDDINGS_FILE"
  by (simp add: INDEX_FILE_def EMBEDDINGS_FILE_def)

lemma save_keeps_memory:
  "vector_index (save_vector_store os s) = vector_index s"
  "stored_chunks (save_vector_store os s) = stored_chunks s"
  "document_mapping (save_vector_store os s) = document_mapping s"
  by (simp_all add: save_vector_store_def Let_def)

lemma write_file_elsewhere: "p \<noteq> path \<Longrightarrow> write_file r path c files p = files p"
  by (cases r) (simp_all add: write_file_def)

lemma write_file_written: "write_file Written path c files path = Some c"
  by (simp add: write_file_def)


lemma initialize_result:
  assumes "makedirs_ok os"
  shows "initialize_vector_store os s =
     (Inr (), case snapshot (disk s) of
                None \<Rightarrow> new_vector_store s
              | Some (loaded, cs, ds) \<Rightarrow>
                  s\<lparr>vector_index := loaded, stored_chunks := cs, document_mapping := ds\<rparr>)"
  using assms
  by (auto simp: initialize_vector_store_def snapshot_def read_index_def
      split: option.splits content.splits)


lemma aligned_save: "aligned (save_vector_store os s) = aligned s"
  by (simp add: aligned_def get_vector_store_stats_def save_keeps_memory)





lemma retrieve_chunks_empty_store:
  assumes "vector_index s \<noteq> None" and "stored_chunks s = []"
  shows "retrieve_chunks encode search os query top_k s = (Inr [], None, s)"
  using assms by (auto simp: retrieve_chunks_def)

text \<open>
  On an aligned, non-empty store, \<open>retrieve_chunks\<close> relays the labels of the search
  that lie within the lists: it returns the chunk and the document name at each label,
  in the order of the labels, neither dropping nor reordering any.
\<close>

lemma collect_in_range:
  assumes "length dm = length sc" and "\<forall>i \<in> set labels. 0 \<le> i \<and> i < int (length sc)"
  shows "collect sc dm labels = Some (map (\<lambda>i. (sc ! nat i, dm ! nat i)) labels) \<and>
     log_ranks dm labels"
  using assms
  by (induction labels) (auto simp: py_index_def log_ranks_def Let_def)

lemma retrieve_chunks_relays_labels:
  assumes "aligned s" and "vector_index s = Some ix" and "stored_chunks s \<noteq> []"
    and "encode [query] = Some q"
    and "search ix q (min top_k (int (length (stored_chunks s)))) = Some labels"
    and "\<forall>i \<in> set labels. 0 \<le> i \<and> i < int (length (stored_chunks s))"
  shows "fst (retrieve_chunks encode search os query top_k s) =
     Inr (map (\<lambda>i. (stored_chunks s ! nat i, document_mapping s ! nat i)) labels)"
proof -
  have "length (document_mapping s) = length (stored_chunks s)"
    using assms(1) by (simp add: aligned_def)
  from collect_in_range[OF this assms(6)] assms(2-5) show ?thesis
    by (simp add: retrieve_chunks_def create_embeddings_def)
qed

text \<open>
  The ranking of the specification's search: as many positions as asked for or as the
  index holds, all of them positions of the index, in the order of distance and then of
  position, and none left out is closer than one returned. With that search,
  \<open>retrieve_chunks\<close> on an aligned store returns the entries at the ranked positions.
\<close>

lemma nearest_length: "length (nearest ix q k) = min k (ntotal ix)"
  by (simp add: nearest_def min.commute)

lemma nearest_range: "set (nearest ix q k) \<subseteq> {0..<ntotal ix}"
proof -
  have "set (nearest ix q k) \<subseteq>
      set (sort_key (\<lambda>i. (squared_distance (rows ix ! i) q, i)) [0..<ntotal ix])"
    unfolding nearest_def by (rule set_take_subset)
  then show ?thesis by simp
qed

lemma nearest_cut: "nearest ix q (min k (ntotal ix)) = nearest ix q k"
  by (simp add: nearest_def min_def)

lemma ranked_sorted:
  fixes f :: "nat \<Rightarrow> 'a::linorder"
  shows "sorted_wrt (\<lambda>i j. f i < f j \<or> (f i = f j \<and> i < j))
     (sort_key (\<lambda>i. (f i, i)) [0..<n])"
proof -
  let ?xs = "sort_key (\<lambda>i. (f i, i)) [0..<n]"
  have s: "sorted (map (\<lambda>i. (f i, i)) ?xs)" by (rule sorted_sort_key)
  have d: "distinct ?xs" by simp
  show ?thesis
    unfolding sorted_wrt_iff_nth_less
  proof (intro allI impI)
    fix i j assume ij: "i < j" "j < length ?xs"
    from s ij have "(f (?xs ! i), ?xs ! i) \<le> (f (?xs ! j), ?xs ! j)"
      by (simp add: sorted_iff_nth_mono)
    moreover from d ij have "?xs ! i \<noteq> ?xs ! j"
      by (simp add: nth_eq_iff_index_eq)
    ultimately show "f (?xs ! i) < f (?xs ! j) \<or> (f (?xs ! i) = f (?xs ! j) \<and> ?xs ! i < ?xs ! j)"
      by (auto simp: less_eq_prod_def)
  qed
qed

lemma nearest_sorted:
  "sorted_wrt (\<lambda>i j. squared_distance (rows ix ! i) q < squared_distance (rows ix ! j) q \<or>
       (squared_distance (rows ix ! i) q = squared_distance (rows ix ! j) q \<and> i < j))
     (nearest ix q k)"
  unfolding nearest_def
  using ranked_sorted[of "\<lambda>i. squared_distance (rows ix ! i) q" "ntotal ix"]
  by (rule sorted_wrt_take)

lemma nearest_closest:
  assumes "i \<in> set (nearest ix q k)" and "j < ntotal ix" and "j \<notin> set (nearest ix q k)"
  shows "squared_distance (rows ix ! i) q \<le> squared_distance (rows ix ! j) q"
proof -
  let ?f = "\<lambda>i. squared_distance (rows ix ! i) q"
  let ?xs = "sort_key (\<lambda>i. (?f i, i)) [0..<ntotal ix]"
  have "j \<in> set ?xs" using assms(2) by simp
  then have "j \<in> set (take k ?xs) \<union> set (drop k ?xs)"
    by (metis append_take_drop_id set_append)
  with assms(3) have j: "j \<in> set (drop k ?xs)" by (simp add: nearest_def)
  have i: "i \<in> set (take k ?xs)" using assms(1) by (simp add: nearest_def)
  have "sorted_wrt (\<lambda>i j. ?f i < ?f j \<or> (?f i = ?f j \<and> i < j)) (take k ?xs @ drop k ?xs)"
    using ranked_sorted[of ?f "ntotal ix"] by simp
  with i j have "?f i < ?f j \<or> (?f i = ?f j \<and> i < j)"
    unfolding sorted_wrt_append by blast
  then show ?thesis by auto
qed

lemma retrieve_chunks_spec_search:
  assumes "aligned s" and "vector_index s = Some ix" and "1 \<le> top_k"
    and "encode [query] = Some [q]"
  shows "fst (retrieve_chunks encode spec_search os query top_k s) =
     Inr (map (\<lambda>i. (stored_chunks s ! i, document_mapping s ! i)) (nearest ix q (nat top_k)))"
proof (cases "stored_chunks s = []")
  case True
  with assms(1,2) have "ntotal ix = 0" by (simp add: aligned_def get_vector_store_stats_def)
  then have "nearest ix q (nat top_k) = []" by (simp add: nearest_def)
  with True assms(2) show ?thesis by (simp add: retrieve_chunks_empty_store)
next
  case False
  define n where "n = length (stored_chunks s)"
  have n: "ntotal ix = n" "0 < n"
    using assms(1,2) False by (simp_all add: aligned_def get_vector_store_stats_def n_def)
  define k where "k = min top_k (int n)"
  have k1: "1 \<le> k" using assms(3) n(2) by (simp add: k_def)
  have cut: "nearest ix q (nat k) = nearest ix q (nat top_k)"
  proof -
    have "nat k = min (nat top_k) (ntotal ix)" unfolding k_def n(1) by arith
    then show ?thesis by (simp add: nearest_cut)
  qed
  have search: "spec_search ix [q] (min top_k (int (length (stored_chunks s)))) =
      Some (map int (nearest ix q (nat top_k)))"
    using k1 cut by (simp add: spec_search_def k_def n_def)
  have "\<forall>i \<in> set (map int (nearest ix q (nat top_k))).
      0 \<le> i \<and> i < int (length (stored_chunks s))"
    using nearest_range[of ix q "nat top_k"] n by (auto simp: n_def)
  from retrieve_chunks_relays_labels[where encode = encode and search = spec_search
      and os = os, OF assms(1,2) False assms(4) search this]
  show ?thesis by (simp add: o_def)
qed

section \<open>Claims about the vector store\<close>

text \<open>
  Claim C4, as stated: every \<open>save_vector_store\<close> writes to a temporary location and
  then atomically replaces the two target files, so that no interrupted save leaves an
  inconsistent pair. The source writes the index to its target first and the metadata
  to its target second. With two vectors in memory and a consistent pair for one vector
  on disk, a save whose second write fails (or is cut off before it starts) leaves the
  new index of two vectors beside the old metadata for one chunk.
\<close>

theorem save_vector_store_atomic_counterexample:
  "aligned two_in_memory \<and> pair_consistent (disk two_in_memory) \<and>
   disk (save_vector_store second_write_fails two_in_memory) INDEX_FILE =
     Some (IndexBlob two_vectors) \<and>
   disk (save_vector_store second_write_fails two_in_memory) EMBEDDINGS_FILE =
     Some (Pickle [py ''first''] [py ''a.txt'']) \<and>
   \<not> pair_consistent (disk (save_vector_store second_write_fails two_in_memory))"
  by (simp add: aligned_def get_vector_store_stats_def pair_consistent_def snapshot_def
      read_index_def serialized_def
      two_in_memory_def one_vector_def two_vectors_def ntotal_def save_vector_store_def
      second_write_fails_def all_ok_def write_file_def Let_def INDEX_FILE_def
      EMBEDDINGS_FILE_def)

text \<open>
  Claim C4, amended. \<open>save_vector_store\<close> writes the serialized index directly to the
  index file and then the metadata directly to the metadata file, with no temporary
  file and no atomic replacement: no path other than the two targets is touched, the
  index file holds the new index as soon as the first write has succeeded, and when
  both writes succeed the pair on disk is the index and the two lists in memory. The
  globals are never changed.
\<close>

theorem save_vector_store_direct_writes:
  "vector_index (save_vector_store os s) = vector_index s \<and>
   stored_chunks (save_vector_store os s) = stored_chunks s \<and>
   document_mapping (save_vector_store os s) = document_mapping s \<and>
   (\<forall>p. p \<noteq> INDEX_FILE \<and> p \<noteq> EMBEDDINGS_FILE \<longrightarrow>
        disk (save_vector_store os s) p = disk s p) \<and>
   (\<forall>ix. vector_index s = Some ix \<and> index_write os = Written \<longrightarrow>
        disk (save_vector_store os s) INDEX_FILE = Some (IndexBlob ix)) \<and>
   (\<forall>ix. vector_index s = Some ix \<and> index_write os = Written \<and> embeddings_write os = Written \<longrightarrow>
        snapshot (disk (save_vector_store os s)) =
          Some (Some ix, stored_chunks s, document_mapping s))"
proof -
  have other: "disk (save_vector_store os s) p = disk s p"
    if "p \<noteq> INDEX_FILE" "p \<noteq> EMBEDDINGS_FILE" for p
    using that
    by (simp add: save_vector_store_def Let_def write_file_elsewhere)
  have first: "disk (save_vector_store os s) INDEX_FILE = Some (IndexBlob ix)"
    if "vector_index s = Some ix" "index_write os = Written" for ix
    using that file_names_differ
    by (simp add: save_vector_store_def Let_def write_file_elsewhere write_file_written
        serialized_def)
  have both: "snapshot (disk (save_vector_store os s)) =
      Some (Some ix, stored_chunks s, document_mapping s)"
    if "vector_index s = Some ix" "index_write os = Written" "embeddings_write os = Written" for ix
    using that file_names_differ first[OF that(1,2)]
    by (simp add: snapshot_def read_index_def save_vector_store_def Let_def
        write_file_written)
  show ?thesis
    using save_keeps_memory[of os s] other first both by blast
qed

theorem save_vector_store_direct_writes_witness:
  "vector_index two_in_memory = Some two_vectors \<and> index_write all_ok = Written \<and>
   embeddings_write all_ok = Written \<and> ''vector_store/tmp'' \<noteq> INDEX_FILE \<and>
   ''vector_store/tmp'' \<noteq> EMBEDDINGS_FILE \<and>
   disk two_in_memory INDEX_FILE = Some (IndexBlob one_vector) \<and>
   disk (save_vector_store all_ok two_in_memory) ''vector_store/tmp'' = None \<and>
   disk (save_vector_store all_ok two_in_memory) INDEX_FILE = Some (IndexBlob two_vectors) \<and>
   snapshot (disk (save_vector_store all_ok two_in_memory)) =
     Some (Some two_vectors, [py ''first'', py ''second''], [py ''a.txt'', py ''b.txt''])"
proof -
  have h: "vector_index two_in_memory = Some two_vectors" "index_write all_ok = Written"
      "embeddings_write all_ok = Written"
    by (simp_all add: two_in_memory_def all_ok_def)
  have p: "''vector_store/tmp'' \<noteq> INDEX_FILE" "''vector_store/tmp'' \<noteq> EMBEDDINGS_FILE"
    by (simp_all add: INDEX_FILE_def EMBEDDINGS_FILE_def)
  have d: "disk two_in_memory ''vector_store/tmp'' = None"
      "disk two_in_memory INDEX_FILE = Some (IndexBlob one_vector)"
    by (simp_all add: two_in_memory_def INDEX_FILE_def EMBEDDINGS_FILE_def)
  have m: "stored_chunks two_in_memory = [py ''first'', py ''second'']"
      "document_mapping two_in_memory = [py ''a.txt'', py ''b.txt'']"
    by (simp_all add: two_in_memory_def)
  from save_vector_store_direct_writes[of all_ok two_in_memory] h p d m
  show ?thesis by simp
qed

text \<open>
  Claim C3, as stated: \<open>initialize_vector_store\<close> loads the persisted pair only when
  the metadata lengths agree with the number of vectors in the index, and falls back
  to a new empty index for every pair that disagrees. The source compares no lengths:
  an index of two vectors beside metadata for one chunk is loaded as it is.
\<close>

theorem initialize_loads_mismatch_counterexample:
  "disk mismatched_store INDEX_FILE = Some (IndexBlob two_vectors) \<and>
   disk mismatched_store EMBEDDINGS_FILE = Some (Pickle [py ''only chunk''] [py ''a.txt'']) \<and>
   ntotal two_vectors = 2 \<and>
   initialize_vector_store all_ok mismatched_store =
     (Inr (), mismatched_store\<lparr>vector_index := Some two_vectors,
                 stored_chunks := [py ''only chunk''], document_mapping := [py ''a.txt'']\<rparr>) \<and>
   initialize_vector_store all_ok mismatched_store \<noteq> (Inr (), new_vector_store mismatched_store)"
  by (simp add: initialize_vector_store_def read_index_def new_vector_store_def
      mismatched_store_def two_vectors_def ntotal_def all_ok_def INDEX_FILE_def
      EMBEDDINGS_FILE_def)

text \<open>
  Claim C3, amended. When the directory can be made, \<open>initialize_vector_store\<close> loads
  the persisted pair whenever both files exist and both deserialize (the index file
  as an index, the metadata file as a dict with the two lists), whatever the lengths;
  in every other case it creates an empty index of dimension 384 with empty lists.
\<close>

theorem initialize_vector_store_loads:
  assumes "makedirs_ok os"
  shows "initialize_vector_store os s =
     (Inr (), case snapshot (disk s) of
                None \<Rightarrow> s\<lparr>vector_index := Some (IndexFlatL2 384), stored_chunks := [],
                           document_mapping := []\<rparr>
              | Some (loaded, cs, ds) \<Rightarrow>
                  s\<lparr>vector_index := loaded, stored_chunks := cs, document_mapping := ds\<rparr>)"
  using initialize_result[OF assms, of s]
  by (simp add: new_vector_store_def split: option.splits)

theorem initialize_vector_store_loads_witness:
  "makedirs_ok all_ok \<and>
   snapshot (disk small_store) = Some (Some one_vector, [py ''first''], [py ''a.txt'']) \<and>
   initialize_vector_store all_ok (new_vector_store small_store) = (Inr (), small_store) \<and>
   snapshot (disk (small_store\<lparr>disk := (disk small_store)(EMBEDDINGS_FILE := None)\<rparr>)) = None \<and>
   vector_index (snd (initialize_vector_store all_ok
       (small_store\<lparr>disk := (disk small_store)(EMBEDDINGS_FILE := None)\<rparr>)))
     = Some (IndexFlatL2 384)"
proof -
  have h: "makedirs_ok all_ok" by (simp add: all_ok_def)
  have s1: "snapshot (disk (new_vector_store small_store)) =
      Some (Some one_vector, [py ''first''], [py ''a.txt''])"
    by (simp add: snapshot_def read_index_def small_store_def new_vector_store_def
        INDEX_FILE_def EMBEDDINGS_FILE_def)
  have s2: "snapshot (disk (small_store\<lparr>disk := (disk small_store)(EMBEDDINGS_FILE := None)\<rparr>))
      = None"
    by (simp add: snapshot_def read_index_def small_store_def INDEX_FILE_def
        EMBEDDINGS_FILE_def)
  have e: "new_vector_store small_store\<lparr>vector_index := Some one_vector,
      stored_chunks := [py ''first''], document_mapping := [py ''a.txt'']\<rparr> = small_store"
    by (simp add: small_store_def new_vector_store_def)
  from initialize_vector_store_loads[OF h, of "new_vector_store small_store"]
    initialize_vector_store_loads[OF h,
      of "small_store\<lparr>disk := (disk small_store)(EMBEDDINGS_FILE := None)\<rparr>"]
    h s1 s2 e
  show ?thesis by (simp add: new_vector_store_def)
qed




text \<open>
  Claim C9, as stated: \<open>retrieve_chunks\<close> with \<open>top_k = 0\<close> fails with an
  \<open>InvalidConfiguration\<close> condition instead of searching. The source has no check of
  \<open>top_k\<close>: on a store with one chunk the search is called with \<open>k = min(0, 1) = 0\<close>, and
  the call returns the empty list, both when the search raises (the exception is
  caught) and when it returns no labels (the empty result is even sent on).
\<close>

theorem retrieve_chunks_zero_k_counterexample:
  "stored_chunks small_store \<noteq> [] \<and>
   retrieve_chunks constant_encoder raising_search all_ok (py ''what'') 0 small_store =
     (Inr [], None, small_store) \<and>
   retrieve_chunks constant_encoder empty_search all_ok (py ''what'') 0 small_store =
     (Inr [], Some \<lparr>about_query = py ''what'', top_chunks = [], num_results = 0,
                    total_docs = 1\<rparr>, small_store)"
  by (simp add: retrieve_chunks_def create_embeddings_def constant_encoder_def
      empty_search_def raising_search_def small_store_def log_ranks_def)

text \<open>
  Claim C9, amended. On an initialised store, \<open>retrieve_chunks\<close> with \<open>top_k = 0\<close> does
  not fail: it returns the empty list and leaves the store unchanged, given that a
  search for 0 neighbours returns no labels or raises.
\<close>

theorem retrieve_chunks_zero_k:
  assumes "vector_index s \<noteq> None"
    and "\<forall>ix q labels. search ix q 0 = Some labels \<longrightarrow> labels = []"
  shows "fst (retrieve_chunks encode search os query 0 s) = Inr [] \<and>
     snd (snd (retrieve_chunks encode search os query 0 s)) = s"
proof -
  have lab: "labels = []" if "search ix q 0 = Some labels" for ix q labels
    using assms(2) that by blast
  show ?thesis
    using assms(1)
    by (auto simp: retrieve_chunks_def log_ranks_def split: option.splits dest!: lab)
qed

theorem retrieve_chunks_zero_k_witness:
  "vector_index small_store \<noteq> None \<and>
   empty_search one_vector [[0, 1]] 0 = Some [] \<and>
   retrieve_chunks constant_encoder empty_search all_ok (py ''what'') 0 small_store =
     (Inr [], Some \<lparr>about_query = py ''what'', top_chunks = [], num_results = 0,
                    total_docs = 1\<rparr>, small_store)"
proof -
  have h1: "vector_index small_store \<noteq> None" by (simp add: small_store_def)
  have h2: "\<forall>ix q labels. empty_search ix q 0 = Some labels \<longrightarrow> labels = []"
    by (simp add: empty_search_def)
  have h3: "empty_search one_vector [[0, 1]] 0 = Some []"
    by (simp add: empty_search_def)
  have m: "fst (snd (retrieve_chunks constant_encoder empty_search all_ok (py ''what'') 0
      small_store)) = Some \<lparr>about_query = py ''what'', top_chunks = [], num_results = 0,
                    total_docs = 1\<rparr>"
    by (simp add: retrieve_chunks_def create_embeddings_def constant_encoder_def
        empty_search_def small_store_def log_ranks_def)
  from retrieve_chunks_zero_k[where search = empty_search and encode = constant_encoder
      and os = all_ok and query = "py ''what''", OF h1 h2] h1 h3 m
  show ?thesis by (metis prod.collapse)
qed

text \<open>
  Claim C6, as stated: for every query vector and every \<open>k \<ge> 1\<close>, \<open>retrieve_chunks\<close>
  returns exactly \<open>min(k, total_indexed)\<close> results in the order of the squared
  Euclidean distance. The source asks the index for \<open>min(top_k, len(stored_chunks))\<close>
  neighbours and reads the two lists at the labels it gets. On the store loaded from
  the files with two vectors and one chunk, the search for one neighbour of a query
  equal to the second vector returns the label 1; that label is skipped as not below
  \<open>len(stored_chunks)\<close>, the log line then reads \<open>document_mapping[1]\<close>, and the
  \<open>IndexError\<close> is caught: the result is empty although two vectors are indexed.
\<close>

theorem retrieve_chunks_count_counterexample:
  "index_size (get_vector_store_stats (snd (initialize_vector_store all_ok mismatched_store)))
     = 2 \<and>
   stored_chunks (snd (initialize_vector_store all_ok mismatched_store)) = [py ''only chunk''] \<and>
   spec_search two_vectors [[0, 1]] 1 = Some [1] \<and>
   fst (retrieve_chunks constant_encoder spec_search all_ok (py ''what'') 1
          (snd (initialize_vector_store all_ok mismatched_store))) = Inr []"
proof -
  have l: "initialize_vector_store all_ok mismatched_store =
     (Inr (), mismatched_store\<lparr>vector_index := Some two_vectors,
                 stored_chunks := [py ''only chunk''], document_mapping := [py ''a.txt'']\<rparr>)"
    by (simp add: initialize_vector_store_def read_index_def mismatched_store_def
        all_ok_def INDEX_FILE_def EMBEDDINGS_FILE_def)
  have s: "spec_search two_vectors [[0, 1]] 1 = Some [1]"
    by code_simp
  show ?thesis
    unfolding l
    by (simp add: s get_vector_store_stats_def two_vectors_def[symmetric] ntotal_def
        retrieve_chunks_def create_embeddings_def constant_encoder_def log_ranks_def
        py_index_def mismatched_store_def)
      (simp add: two_vectors_def)
qed

text \<open>
  Claim C6, amended. On an initialised store whose three collections have the same
  length, for every query with an embedding \<open>q\<close> and every \<open>k \<ge> 1\<close>, \<open>retrieve_chunks\<close>
  returns the pairs of chunk and document name at the positions that the search ranks,
  in the order of the search. With the search of the specification these are exactly
  \<open>min(k, total_indexed)\<close> entries of the index, in the order of non-decreasing squared
  Euclidean distance to \<open>q\<close> with ties in the order of insertion, and no entry left
  out is closer than one returned; the result is the empty list when the index holds
  no vector.
\<close>

theorem retrieve_chunks_ranked:
  assumes "aligned s" and "vector_index s = Some ix" and "1 \<le> top_k"
    and "encode [query] = Some [q]"
  shows
   "fst (retrieve_chunks encode spec_search os query top_k s) =
      Inr (map (\<lambda>i. (stored_chunks s ! i, document_mapping s ! i))
             (nearest ix q (nat top_k))) \<and>
    length (nearest ix q (nat top_k)) = min (nat top_k) (ntotal ix) \<and>
    (\<forall>i \<in> set (nearest ix q (nat top_k)). i < ntotal ix) \<and>
    sorted_wrt
      (\<lambda>i j. squared_distance (rows ix ! i) q < squared_distance (rows ix ! j) q \<or>
         (squared_distance (rows ix ! i) q = squared_distance (rows ix ! j) q \<and> i < j))
      (nearest ix q (nat top_k)) \<and>
    (\<forall>i \<in> set (nearest ix q (nat top_k)). \<forall>j.
        j < ntotal ix \<and> j \<notin> set (nearest ix q (nat top_k)) \<longrightarrow>
        squared_distance (rows ix ! i) q \<le> squared_distance (rows ix ! j) q) \<and>
    (ntotal ix = 0 \<longrightarrow>
       fst (retrieve_chunks encode spec_search os query top_k s) = Inr [])"
proof -
  have relay: "fst (retrieve_chunks encode spec_search os query top_k s) =
      Inr (map (\<lambda>i. (stored_chunks s ! i, document_mapping s ! i))
             (nearest ix q (nat top_k)))"
    by (rule retrieve_chunks_spec_search[where encode = encode, OF assms])
  have range: "\<forall>i \<in> set (nearest ix q (nat top_k)). i < ntotal ix"
    using nearest_range[of ix q "nat top_k"] by auto
  have closest: "\<forall>i \<in> set (nearest ix q (nat top_k)). \<forall>j.
        j < ntotal ix \<and> j \<notin> set (nearest ix q (nat top_k)) \<longrightarrow>
        squared_distance (rows ix ! i) q \<le> squared_distance (rows ix ! j) q"
    using nearest_closest[of _ ix q "nat top_k"] by blast
  have empty: "fst (retrieve_chunks encode spec_search os query top_k s) = Inr []"
    if "ntotal ix = 0"
  proof -
    from that have "nearest ix q (nat top_k) = []" by (simp add: nearest_def)
    with relay show ?thesis by simp
  qed
  show ?thesis
    using relay nearest_length[of ix q "nat top_k"] range nearest_sorted[of ix q "nat top_k"]
      closest empty
    by blast
qed

theorem retrieve_chunks_ranked_witness:
  "aligned two_in_memory \<and> vector_index two_in_memory = Some two_vectors \<and> (1::int) \<le> 5 \<and>
   constant_encoder [py ''what''] = Some [[0, 1]] \<and>
   squared_distance [1, 0] [0, 1 :: int] = 2 \<and> squared_distance [0, 1] [0, 1 :: int] = 0 \<and>
   nearest two_vectors [0, 1] (nat 5) = [1, 0] \<and>
   fst (retrieve_chunks constant_encoder spec_search all_ok (py ''what'') 5 two_in_memory) =
     Inr [(py ''second'', py ''b.txt''), (py ''first'', py ''a.txt'')]"
proof -
  have h1: "aligned two_in_memory"
    by (simp add: aligned_def get_vector_store_stats_def two_in_memory_def two_vectors_def
        ntotal_def)
  have h2: "vector_index two_in_memory = Some two_vectors" by (simp add: two_in_memory_def)
  have h4: "constant_encoder [py ''what''] = Some [[0, 1]]"
    by (simp add: constant_encoder_def)
  have d: "squared_distance [1, 0] [0, 1 :: int] = 2" "squared_distance [0, 1] [0, 1 :: int] = 0"
    by (simp_all add: squared_distance_def)
  have n: "nearest two_vectors [0, 1] (nat 5) = [1, 0]"
    by code_simp
  have m: "map (\<lambda>i. (stored_chunks two_in_memory ! i, document_mapping two_in_memory ! i)) [1, 0]
      = [(py ''second'', py ''b.txt''), (py ''first'', py ''a.txt'')]"
    by (simp add: two_in_memory_def)
  from retrieve_chunks_ranked[where encode = constant_encoder and os = all_ok
      and query = "py ''what''" and top_k = 5, OF h1 h2 _ h4] h1 h2 h4 d n m
  show ?thesis by simp
qed

end

